theory Spec2Isabelle
  imports Main "HOL-Library.AList" "HOL-Library.Sublist"
begin

section \<open>The IP blacklist checker of \<^verbatim>\<open>blacklist_checker.py\<close>\<close>

text \<open>
  The class \<^verbatim>\<open>IPBlacklistChecker\<close> asks three threat-intelligence providers about an IP
  address and keeps the verdicts in two caches: the dictionary \<^verbatim>\<open>self.cache\<close>, whose
  entries carry a time stamp and are trusted for 24 hours, and the store of the decorator
  \<^verbatim>\<open>@lru_cache(maxsize=10000)\<close> around \<^verbatim>\<open>is_blacklisted\<close>, which has no notion of time.
  Everything outside the process (the environment variables, the network, the clock) is a
  parameter of the model, the record \<open>world\<close>, given afresh to every call.
\<close>

subsection \<open>Python values\<close>

text \<open>
  The exceptions an adapter can meet. All of them are subclasses of Python's
  \<^verbatim>\<open>Exception\<close>: the first two come from \<^verbatim>\<open>requests.get\<close>, the third from
  \<^verbatim>\<open>response.json()\<close>, the last two from using a parsed value at the wrong type.
\<close>

datatype exn = ConnectionError | Timeout | JSONDecodeError | AttributeError | TypeError

text \<open>
  What \<^verbatim>\<open>response.json()\<close> can return. A JSON object is the dictionary Python builds
  from it, as an association list. Numbers are Python integers: the providers send
  integers, and floating-point numbers are left out of the model.
\<close>

datatype json =
    JNull
  | JBool bool
  | JInt int
  | JStr string
  | JList "json list"
  | JObj "(string \<times> json) list"

text \<open>
  \<^verbatim>\<open>d.get(k, default)\<close>: only a dictionary has the method; on anything else the
  attribute lookup raises.
\<close>

fun dict_get :: "json \<Rightarrow> string \<Rightarrow> json \<Rightarrow> exn + json" where
  "dict_get (JObj kvs) k d = Inr (case map_of kvs k of None \<Rightarrow> d | Some v \<Rightarrow> v)"
| "dict_get JNull k d = Inl AttributeError"
| "dict_get (JBool b) k d = Inl AttributeError"
| "dict_get (JInt n) k d = Inl AttributeError"
| "dict_get (JStr s) k d = Inl AttributeError"
| "dict_get (JList xs) k d = Inl AttributeError"

text \<open>
  The values Python compares and multiplies as integers: \<^verbatim>\<open>int\<close>, and \<^verbatim>\<open>bool\<close>,
  its subclass (\<^verbatim>\<open>True == 1\<close>). For every other value both \<^verbatim>\<open>x > 75\<close> and
  \<^verbatim>\<open>min(100, x * 10)\<close> raise \<^verbatim>\<open>TypeError\<close>.
\<close>

fun py_int :: "json \<Rightarrow> int option" where
  "py_int (JInt n) = Some n"
| "py_int (JBool b) = Some (if b then 1 else 0)"
| "py_int JNull = None"
| "py_int (JStr s) = None"
| "py_int (JList xs) = None"
| "py_int (JObj kvs) = None"

text \<open>\<^verbatim>\<open>str.lower()\<close>, on the ASCII letters.\<close>

definition lower_char :: "char \<Rightarrow> char" where
  "lower_char c =
     (if 65 \<le> (of_char c :: nat) \<and> (of_char c :: nat) \<le> 90
      then char_of ((of_char c :: nat) + 32) else c)"

definition lower :: "string \<Rightarrow> string" where
  "lower s = map lower_char s"

subsection \<open>The outside world\<close>

record request =
  url :: string
  headers :: "(string \<times> string) list"
  params :: "(string \<times> string) list"
  timeout :: nat

text \<open>
  A response of \<^verbatim>\<open>requests\<close>: \<open>resp_json\<close> is the outcome of \<^verbatim>\<open>response.json()\<close>
  (the parser is not modelled), \<open>resp_text\<close> is \<^verbatim>\<open>response.text\<close>.
\<close>

record response =
  status_code :: int
  resp_json :: "exn + json"
  resp_text :: string

text \<open>
  \<open>environ\<close> is \<^verbatim>\<open>os.environ.get\<close>, \<open>requests_get\<close> is \<^verbatim>\<open>requests.get\<close> (it
  returns a response or raises), \<open>now_check\<close> and \<open>now_store\<close> are the readings of
  \<^verbatim>\<open>datetime.now()\<close> at the cache test and at the cache write, in microseconds.
\<close>

record world =
  environ :: "string \<Rightarrow> string option"
  requests_get :: "request \<Rightarrow> exn + response"
  now_check :: int
  now_store :: int

subsection \<open>The adapters\<close>

text \<open>
  A check function returns the pair \<^verbatim>\<open>(is_blocked, confidence)\<close> or raises (\<open>Inl\<close>).
  Beside its outcome the model returns the requests it has sent, so that theorems can
  speak about outbound calls.
\<close>

type_synonym adapter = "world \<Rightarrow> string \<Rightarrow> (exn + bool \<times> int) \<times> request list"

text \<open>The request each adapter passes to \<^verbatim>\<open>requests.get\<close>.\<close>

definition abuseipdb_request :: "string \<Rightarrow> string \<Rightarrow> request" where
  "abuseipdb_request api_key ip =
     \<lparr>url = ''https://api.abuseipdb.com/api/v2/check'',
      headers = [(''Accept'', ''application/json''), (''Key'', api_key)],
      params = [(''ipAddress'', ip), (''maxAgeInDays'', ''90'')],
      timeout = 5\<rparr>"

definition stopforumspam_request :: "string \<Rightarrow> request" where
  "stopforumspam_request ip =
     \<lparr>url = ''https://api.stopforumspam.org/api?ip='' @ ip @ ''&json'',
      headers = [], params = [], timeout = 5\<rparr>"

definition blocklist_de_request :: "string \<Rightarrow> request" where
  "blocklist_de_request ip =
     \<lparr>url = ''https://api.blocklist.de/api.php?ip='' @ ip,
      headers = [], params = [], timeout = 5\<rparr>"

definition check_abuseipdb :: adapter where
  "check_abuseipdb w ip =
     (case environ w ''ABUSEIPDB_API_KEY'' of
        None \<Rightarrow> (Inr (False, 0), [])
      | Some api_key \<Rightarrow>
          if api_key = [] then (Inr (False, 0), [])
          else
            let req = abuseipdb_request api_key ip
            in (case requests_get w req of
                  Inl e \<Rightarrow> (Inl e, [req])
                | Inr response \<Rightarrow>
                    if status_code response = 200 then
                      (case resp_json response of
                         Inl e \<Rightarrow> (Inl e, [req])
                       | Inr data \<Rightarrow>
                           (case dict_get data ''data'' (JObj []) of
                              Inl e \<Rightarrow> (Inl e, [req])
                            | Inr d \<Rightarrow>
                                (case dict_get d ''abuseConfidenceScore'' (JInt 0) of
                                   Inl e \<Rightarrow> (Inl e, [req])
                                 | Inr abuse_score \<Rightarrow>
                                     (case py_int abuse_score of
                                        None \<Rightarrow> (Inl TypeError, [req])
                                      | Some n \<Rightarrow> (Inr (n > 75, n), [req])))))
                    else (Inr (False, 0), [req])))"

definition check_stopforumspam :: adapter where
  "check_stopforumspam w ip =
     (let req = stopforumspam_request ip
      in (case requests_get w req of
            Inl e \<Rightarrow> (Inl e, [req])
          | Inr response \<Rightarrow>
              if status_code response = 200 then
                (case resp_json response of
                   Inl e \<Rightarrow> (Inl e, [req])
                 | Inr data \<Rightarrow>
                     (case dict_get data ''ip'' (JObj []) of
                        Inl e \<Rightarrow> (Inl e, [req])
                      | Inr d \<Rightarrow>
                          (case dict_get d ''appears'' (JInt 0) of
                             Inl e \<Rightarrow> (Inl e, [req])
                           | Inr appears \<Rightarrow>
                               (case py_int appears of
                                  None \<Rightarrow> (Inl TypeError, [req])
                                | Some a \<Rightarrow>
                                    if a > 0 then
                                      (case dict_get data ''ip'' (JObj []) of
                                         Inl e \<Rightarrow> (Inl e, [req])
                                       | Inr d' \<Rightarrow>
                                           (case dict_get d' ''frequency'' (JInt 0) of
                                              Inl e \<Rightarrow> (Inl e, [req])
                                            | Inr frequency \<Rightarrow>
                                                (case py_int frequency of
                                                   None \<Rightarrow> (Inl TypeError, [req])
                                                 | Some f \<Rightarrow>
                                                     (Inr (True, min 100 (f * 10)), [req]))))
                                    else (Inr (False, 0), [req])))))
              else (Inr (False, 0), [req])))"

definition check_blocklist_de :: adapter where
  "check_blocklist_de w ip =
     (let req = blocklist_de_request ip
      in (case requests_get w req of
            Inl e \<Rightarrow> (Inl e, [req])
          | Inr response \<Rightarrow>
              if status_code response = 200 then
                (let txt = lower (resp_text response)
                 in if sublist ''attacks:'' txt \<and> \<not> sublist ''attacks: 0'' txt
                    then (Inr (True, 80), [req])
                    else (Inr (False, 0), [req]))
              else (Inr (False, 0), [req])))"

subsection \<open>The checker\<close>

text \<open>The triple \<^verbatim>\<open>(is_blacklisted, source, confidence)\<close>; \<open>None\<close> is Python's \<^verbatim>\<open>None\<close>.\<close>

type_synonym verdict = "bool \<times> string option \<times> int"

text \<open>
  \<open>cache\<close> is the dictionary \<^verbatim>\<open>self.cache\<close> in insertion order, \<open>sources\<close> the
  dictionary \<^verbatim>\<open>self.sources\<close> in insertion order, \<open>memo\<close> the store of the decorator
  \<^verbatim>\<open>lru_cache\<close>, most recently used key first. The decorator's keys also hold
  \<^verbatim>\<open>self\<close>; the module has one instance, so the model keeps the address only.
\<close>

record checker =
  cache :: "(string \<times> (verdict \<times> int)) list"
  sources :: "(string \<times> adapter) list"
  memo :: "(string \<times> verdict) list"

text \<open>\<^verbatim>\<open>timedelta(hours=24)\<close>, in microseconds.\<close>

definition cache_duration :: int where
  "cache_duration = 24 * 3600 * 1000000"

definition maxsize :: nat where
  "maxsize = 10000"

definition init_checker :: checker where
  "init_checker =
     \<lparr>cache = [],
      sources = [(''abuseipdb'', check_abuseipdb),
                 (''stopforumspam'', check_stopforumspam),
                 (''blocklist_de'', check_blocklist_de)],
      memo = []\<rparr>"

text \<open>
  What a call leaves behind for an observer: the adapters it has consulted, in order, each
  with the requests it sent.
\<close>

type_synonym trace = "(string \<times> request list) list"

text \<open>
  The loop over \<^verbatim>\<open>self.sources.items()\<close>. \<open>Some\<close> is the \<^verbatim>\<open>return\<close> inside the loop,
  \<open>None\<close> says that the loop has run to its end. The \<^verbatim>\<open>except Exception\<close> clause
  is the branch \<open>Inl\<close>.
\<close>

fun check_sources :: "world \<Rightarrow> string \<Rightarrow> (string \<times> adapter) list \<Rightarrow> verdict option \<times> trace" where
  "check_sources w ip_address [] = (None, [])"
| "check_sources w ip_address ((source_name, check_func) # rest) =
     (case check_func w ip_address of
        (Inr (is_blocked, confidence), reqs) \<Rightarrow>
          if is_blocked then (Some (True, Some source_name, confidence), [(source_name, reqs)])
          else (case check_sources w ip_address rest of
                  (r, tr) \<Rightarrow> (r, (source_name, reqs) # tr))
      | (Inl e, reqs) \<Rightarrow>
          (case check_sources w ip_address rest of
             (r, tr) \<Rightarrow> (r, (source_name, reqs) # tr)))"

text \<open>The part of \<^verbatim>\<open>is_blacklisted\<close> after the cache test: ask the sources, store, return.\<close>

definition ask_sources :: "world \<Rightarrow> string \<Rightarrow> checker \<Rightarrow> verdict \<times> checker \<times> trace" where
  "ask_sources w ip_address s =
     (case check_sources w ip_address (sources s) of
        (Some result, tr) \<Rightarrow>
          (result, s\<lparr>cache := AList.update ip_address (result, now_store w) (cache s)\<rparr>, tr)
      | (None, tr) \<Rightarrow>
          ((False, None, 0),
           s\<lparr>cache := AList.update ip_address ((False, None, 0), now_store w) (cache s)\<rparr>, tr))"

text \<open>The body of \<^verbatim>\<open>is_blacklisted\<close>, without its decorator.\<close>

definition is_blacklisted_body :: "world \<Rightarrow> string \<Rightarrow> checker \<Rightarrow> verdict \<times> checker \<times> trace" where
  "is_blacklisted_body w ip_address s =
     (case map_of (cache s) ip_address of
        Some (cached_data, cached_time) \<Rightarrow>
          if now_check w - cached_time < cache_duration then (cached_data, s, [])
          else ask_sources w ip_address s
      | None \<Rightarrow> ask_sources w ip_address s)"

text \<open>
  The decorator \<^verbatim>\<open>lru_cache\<close>: a hit moves the key to the front and returns the stored
  result without running the body; a miss runs the body and stores its result, after
  dropping the least recently used key when the store is full.
\<close>

definition lru_touch :: "string \<Rightarrow> verdict \<Rightarrow> (string \<times> verdict) list \<Rightarrow> (string \<times> verdict) list" where
  "lru_touch k v m = (k, v) # filter (\<lambda>p. fst p \<noteq> k) m"

definition lru_insert :: "string \<Rightarrow> verdict \<Rightarrow> (string \<times> verdict) list \<Rightarrow> (string \<times> verdict) list" where
  "lru_insert k v m = (k, v) # (if length m \<ge> maxsize then butlast m else m)"

definition is_blacklisted :: "world \<Rightarrow> string \<Rightarrow> checker \<Rightarrow> verdict \<times> checker \<times> trace" where
  "is_blacklisted w ip_address s =
     (case map_of (memo s) ip_address of
        Some result \<Rightarrow> (result, s\<lparr>memo := lru_touch ip_address result (memo s)\<rparr>, [])
      | None \<Rightarrow>
          (case is_blacklisted_body w ip_address s of
             (result, s', tr) \<Rightarrow>
               (result, s'\<lparr>memo := lru_insert ip_address result (memo s')\<rparr>, tr)))"

text \<open>
  \<^verbatim>\<open>clear_cache\<close> has no \<^verbatim>\<open>return\<close> statement, so the call evaluates to \<^verbatim>\<open>None\<close>.
  The third component is the number the method writes into its log message.
\<close>

datatype pyval = PyNone | PyInt int

definition clear_cache :: "checker \<Rightarrow> pyval \<times> checker \<times> nat" where
  "clear_cache s =
     (let cache_size = length (cache s)
      in (PyNone, s\<lparr>cache := [], memo := []\<rparr>, cache_size))"

text \<open>Histories of calls on the checker, for statements about every state it can reach.\<close>

datatype call = IsBlacklisted world string | ClearCache

fun run :: "call list \<Rightarrow> checker \<Rightarrow> checker" where
  "run [] s = s"
| "run (IsBlacklisted w ip # cs) s = run cs (fst (snd (is_blacklisted w ip s)))"
| "run (ClearCache # cs) s = run cs (fst (snd (clear_cache s)))"

subsection \<open>Notions used in the statements\<close>

text \<open>
  No stored verdict answers the call: the decorator's store has no entry for the address,
  and \<^verbatim>\<open>self.cache\<close> has none that is younger than 24 hours at this call's clock.
\<close>

definition no_stored_verdict :: "world \<Rightarrow> string \<Rightarrow> checker \<Rightarrow> bool" where
  "no_stored_verdict w ip s =
     (map_of (memo s) ip = None \<and>
      (case map_of (cache s) ip of
         None \<Rightarrow> True
       | Some (cached_data, cached_time) \<Rightarrow> \<not> now_check w - cached_time < cache_duration))"

text \<open>The shape of a verdict: a source exactly when blocked, confidence 0 when not.\<close>

definition well_formed :: "verdict \<Rightarrow> bool" where
  "well_formed v =
     (case v of (blocked, source, confidence) \<Rightarrow>
        (source \<noteq> None) = blocked \<and> (\<not> blocked \<longrightarrow> confidence = 0))"

text \<open>Whether a check function raised.\<close>

definition raises :: "adapter \<Rightarrow> world \<Rightarrow> string \<Rightarrow> bool" where
  "raises check_func w ip = (case fst (check_func w ip) of Inl e \<Rightarrow> True | Inr r \<Rightarrow> False)"

subsection \<open>Concrete worlds\<close>

definition resp_ok :: "json \<Rightarrow> string \<Rightarrow> response" where
  "resp_ok j t = \<lparr>status_code = 200, resp_json = Inr j, resp_text = t\<rparr>"

text \<open>No API key; every provider answers 200 and knows nothing of the address.\<close>

definition world_clean :: "int \<Rightarrow> world" where
  "world_clean t =
     \<lparr>environ = (\<lambda>k. None),
      requests_get = (\<lambda>r. Inr (resp_ok (JObj []) [])),
      now_check = t, now_store = t\<rparr>"

text \<open>No API key; StopForumSpam has seen the address \<open>f\<close> times, blocklist.de lists it.\<close>

definition world_listed :: "int \<Rightarrow> int \<Rightarrow> world" where
  "world_listed f t =
     \<lparr>environ = (\<lambda>k. None),
      requests_get = (\<lambda>r. Inr (resp_ok
         (JObj [(''ip'', JObj [(''appears'', JInt 1), (''frequency'', JInt f)])])
         ''attacks: 4'')),
      now_check = t, now_store = t\<rparr>"

text \<open>An API key is set; AbuseIPDB reports the given score, the other two know nothing.\<close>

definition world_score :: "int \<Rightarrow> int \<Rightarrow> world" where
  "world_score n t =
     \<lparr>environ = (\<lambda>k. if k = ''ABUSEIPDB_API_KEY'' then Some ''secret'' else None),
      requests_get = (\<lambda>r. Inr (resp_ok
         (JObj [(''data'', JObj [(''abuseConfidenceScore'', JInt n)])]) [])),
      now_check = t, now_store = t\<rparr>"

text \<open>An API key is set and the network is down: every request raises.\<close>

definition world_down :: "int \<Rightarrow> world" where
  "world_down t =
     \<lparr>environ = (\<lambda>k. if k = ''ABUSEIPDB_API_KEY'' then Some ''secret'' else None),
      requests_get = (\<lambda>r. Inl ConnectionError),
      now_check = t, now_store = t\<rparr>"

text \<open>No API key; StopForumSpam has seen the address and sends no frequency.\<close>

definition world_no_frequency :: "int \<Rightarrow> world" where
  "world_no_frequency t =
     \<lparr>environ = (\<lambda>k. None),
      requests_get = (\<lambda>r. Inr (resp_ok (JObj [(''ip'', JObj [(''appears'', JInt 1)])]) [])),
      now_check = t, now_store = t\<rparr>"

text \<open>An API key is set; every provider answers 503.\<close>

definition world_error :: "int \<Rightarrow> world" where
  "world_error t =
     \<lparr>environ = (\<lambda>k. if k = ''ABUSEIPDB_API_KEY'' then Some ''secret'' else None),
      requests_get = (\<lambda>r. Inr \<lparr>status_code = 503, resp_json = Inl JSONDecodeError,
                                resp_text = ''Service Unavailable''\<rparr>),
      now_check = t, now_store = t\<rparr>"

text \<open>An API key is set; every provider answers 200 with a page that is not JSON.\<close>

definition world_garbled :: "int \<Rightarrow> world" where
  "world_garbled t =
     \<lparr>environ = (\<lambda>k. if k = ''ABUSEIPDB_API_KEY'' then Some ''secret'' else None),
      requests_get = (\<lambda>r. Inr \<lparr>status_code = 200, resp_json = Inl JSONDecodeError,
                                resp_text = ''<html>''\<rparr>),
      now_check = t, now_store = t\<rparr>"

text \<open>A check function with a fixed outcome that sends nothing.\<close>

definition const_adapter :: "exn + bool \<times> int \<Rightarrow> adapter" where
  "const_adapter r w ip = (r, [])"

text \<open>
  A checker with the three sources of the spec's example: \<open>A\<close> does not block,
  \<open>B\<close> blocks with confidence 60, \<open>C\<close> blocks with confidence 90.
\<close>

definition abc_checker :: checker where
  "abc_checker =
     \<lparr>cache = [],
      sources = [(''A'', const_adapter (Inr (False, 0))),
                 (''B'', const_adapter (Inr (True, 60))),
                 (''C'', const_adapter (Inr (True, 90)))],
      memo = []\<rparr>"

definition day :: int where
  "day = 24 * 3600 * 1000000"

text \<open>Every verdict kept in one of the two stores has the shape of a verdict.\<close>

definition stored_ok :: "checker \<Rightarrow> bool" where
  "stored_ok s =
     ((\<forall>p \<in> set (memo s). well_formed (snd p)) \<and>
      (\<forall>p \<in> set (cache s). well_formed (fst (snd p))))"

section \<open>Unfolding the model on concrete inputs\<close>

lemma lower_Nil: "lower [] = []"
  by (simp add: lower_def)

lemma lower_attacks_4: "lower ''attacks: 4'' = ''attacks: 4''"
  by code_simp

lemma listed_attacks_4:
  "sublist ''attacks:'' ''attacks: 4'' \<and> \<not> sublist ''attacks: 0'' ''attacks: 4''"
  by (simp add: sublist_code(3))

lemmas eval_defs = is_blacklisted_def is_blacklisted_body_def ask_sources_def init_checker_def
      clear_cache_def lru_insert_def lru_touch_def maxsize_def cache_duration_def day_def
      check_abuseipdb_def check_stopforumspam_def check_blocklist_de_def
      abuseipdb_request_def stopforumspam_request_def blocklist_de_request_def
      world_clean_def world_listed_def world_score_def world_down_def world_garbled_def
      resp_ok_def lower_Nil lower_attacks_4 listed_attacks_4 Let_def

section \<open>The loop over the sources\<close>

lemma check_sources_skip:
  "\<forall>c. fst (f w ip) \<noteq> Inr (True, c) \<Longrightarrow>
     check_sources w ip ((n, f) # rest) =
       (fst (check_sources w ip rest), (n, snd (f w ip)) # snd (check_sources w ip rest))"
  by (cases "f w ip") (auto split: sum.splits prod.splits)

lemma check_sources_hit:
  "fst (f w ip) = Inr (True, c) \<Longrightarrow>
     check_sources w ip ((n, f) # rest) = (Some (True, Some n, c), [(n, snd (f w ip))])"
  by (cases "f w ip") (auto split: sum.splits prod.splits)

lemma check_sources_first_match:
  assumes "\<forall>(m, g) \<in> set pre. \<forall>c. fst (g w ip) \<noteq> Inr (True, c)"
    and "fst (f w ip) = Inr (True, c)"
  shows "check_sources w ip (pre @ (n, f) # post) =
           (Some (True, Some n, c), map (\<lambda>(m, g). (m, snd (g w ip))) (pre @ [(n, f)]))"
  using assms
proof (induction pre)
  case Nil
  then show ?case by (simp add: check_sources_hit del: check_sources.simps)
next
  case (Cons p pre)
  obtain m g where p: "p = (m, g)" by (cases p)
  from Cons.prems p have nb: "\<forall>c. fst (g w ip) \<noteq> Inr (True, c)" by simp
  from Cons.prems have "\<forall>(m, g) \<in> set pre. \<forall>c. fst (g w ip) \<noteq> Inr (True, c)" by simp
  with Cons.IH Cons.prems(2)
  have IH: "check_sources w ip (pre @ (n, f) # post) =
           (Some (True, Some n, c), map (\<lambda>(m, g). (m, snd (g w ip))) (pre @ [(n, f)]))" by blast
  show ?case
    using check_sources_skip [of g w ip m "pre @ (n, f) # post"] nb IH p by simp
qed

lemma check_sources_shape:
  "fst (check_sources w ip srcs) = None \<or>
   (\<exists>n c. fst (check_sources w ip srcs) = Some (True, Some n, c))"
  by (induction srcs) (auto split: sum.splits prod.splits)

lemma check_sources_all_quiet:
  "\<forall>(m, g) \<in> set srcs. \<forall>c. fst (g w ip) \<noteq> Inr (True, c) \<Longrightarrow>
     check_sources w ip srcs = (None, map (\<lambda>(m, g). (m, snd (g w ip))) srcs)"
proof (induction srcs)
  case Nil
  then show ?case by simp
next
  case (Cons p srcs)
  obtain m g where p: "p = (m, g)" by (cases p)
  from Cons.prems p have nb: "\<forall>c. fst (g w ip) \<noteq> Inr (True, c)" by simp
  from Cons have IH: "check_sources w ip srcs = (None, map (\<lambda>(m, g). (m, snd (g w ip))) srcs)" by simp
  show ?case using check_sources_skip [of g w ip m srcs] nb IH p by simp
qed

lemma is_blacklisted_fresh:
  assumes "no_stored_verdict w ip s"
  shows "fst (is_blacklisted w ip s) =
           (case fst (check_sources w ip (sources s)) of Some v \<Rightarrow> v | None \<Rightarrow> (False, None, 0))"
    and "snd (snd (is_blacklisted w ip s)) = snd (check_sources w ip (sources s))"
  using assms
  by (auto simp: no_stored_verdict_def is_blacklisted_def is_blacklisted_body_def ask_sources_def
      split: option.splits prod.splits)

lemma is_blacklisted_memo_hit:
  "map_of (memo s) ip = Some v \<Longrightarrow>
     is_blacklisted w ip s = (v, s\<lparr>memo := lru_touch ip v (memo s)\<rparr>, [])"
  by (simp add: is_blacklisted_def)

lemma memo_after_call:
  "map_of (memo (fst (snd (is_blacklisted w ip s)))) ip = Some (fst (is_blacklisted w ip s))"
  by (auto simp: is_blacklisted_def lru_touch_def lru_insert_def split: option.splits prod.splits)

section \<open>The stored verdicts keep their shape\<close>

lemma set_update_subset: "set (AList.update k v al) \<subseteq> insert (k, v) (set al)"
  by (induction al) auto

lemma well_formed_check_sources:
  "well_formed (case fst (check_sources w ip srcs) of Some v \<Rightarrow> v | None \<Rightarrow> (False, None, 0))"
  using check_sources_shape [of w ip srcs] by (auto simp: well_formed_def)

lemma ask_sources_result:
  "fst (ask_sources w ip s) =
     (case fst (check_sources w ip (sources s)) of Some v \<Rightarrow> v | None \<Rightarrow> (False, None, 0))"
  by (simp add: ask_sources_def split: prod.splits option.splits)

lemma ask_sources_state:
  "fst (snd (ask_sources w ip s)) =
     s\<lparr>cache := AList.update ip (fst (ask_sources w ip s), now_store w) (cache s)\<rparr>"
  by (simp add: ask_sources_def split: prod.splits option.splits)

lemma stored_ok_ask_sources:
  assumes "stored_ok s"
  shows "stored_ok (fst (snd (ask_sources w ip s)))" and "well_formed (fst (ask_sources w ip s))"
proof -
  show wf: "well_formed (fst (ask_sources w ip s))"
    by (simp add: ask_sources_result well_formed_check_sources)
  show "stored_ok (fst (snd (ask_sources w ip s)))"
    using assms wf set_update_subset [of ip "(fst (ask_sources w ip s), now_store w)" "cache s"]
    by (subst ask_sources_state) (auto simp: stored_ok_def)
qed

lemma stored_ok_body:
  assumes "stored_ok s"
  shows "stored_ok (fst (snd (is_blacklisted_body w ip s)))"
    and "well_formed (fst (is_blacklisted_body w ip s))"
proof -
  show "stored_ok (fst (snd (is_blacklisted_body w ip s)))"
    using assms stored_ok_ask_sources(1) [OF assms, of w ip]
    by (auto simp: is_blacklisted_body_def split: option.splits)
  show "well_formed (fst (is_blacklisted_body w ip s))"
    using assms stored_ok_ask_sources(2) [OF assms, of w ip]
    by (auto simp: is_blacklisted_body_def stored_ok_def split: option.splits dest!: map_of_SomeD)
qed

lemma stored_ok_is_blacklisted:
  assumes "stored_ok s"
  shows "stored_ok (fst (snd (is_blacklisted w ip s)))"
    and "well_formed (fst (is_blacklisted w ip s))"
proof -
  show "well_formed (fst (is_blacklisted w ip s))"
    using assms stored_ok_body(2) [OF assms, of w ip]
    by (auto simp: is_blacklisted_def stored_ok_def split: option.splits prod.splits dest!: map_of_SomeD)
  show "stored_ok (fst (snd (is_blacklisted w ip s)))"
  proof (cases "map_of (memo s) ip")
    case None
    obtain v s' tr where b: "is_blacklisted_body w ip s = (v, s', tr)" by (cases "is_blacklisted_body w ip s")
    from stored_ok_body [OF assms, of w ip] b have "stored_ok s'" "well_formed v" by simp_all
    then have "stored_ok (s'\<lparr>memo := lru_insert ip v (memo s')\<rparr>)"
      by (auto simp: stored_ok_def lru_insert_def dest: in_set_butlastD)
    with None b show ?thesis by (simp add: is_blacklisted_def)
  next
    case (Some v)
    then have "(ip, v) \<in> set (memo s)" by (rule map_of_SomeD)
    with assms have "stored_ok (s\<lparr>memo := lru_touch ip v (memo s)\<rparr>)"
      by (auto simp: stored_ok_def lru_touch_def)
    with Some show ?thesis by (simp add: is_blacklisted_def)
  qed
qed

lemma stored_ok_clear_cache: "stored_ok (fst (snd (clear_cache s)))"
  by (simp add: clear_cache_def stored_ok_def)

lemma stored_ok_run: "stored_ok s \<Longrightarrow> stored_ok (run cs s)"
proof (induction cs arbitrary: s)
  case Nil
  then show ?case by simp
next
  case (Cons c cs)
  show ?case
  proof (cases c)
    case (IsBlacklisted w ip)
    with Cons stored_ok_is_blacklisted(1) [of s w ip] show ?thesis by simp
  next
    case ClearCache
    with Cons stored_ok_clear_cache [of s] show ?thesis by simp
  qed
qed

lemma stored_ok_init: "stored_ok init_checker"
  by (simp add: stored_ok_def init_checker_def)

section \<open>The keys of the cache are distinct\<close>

lemma distinct_ask_sources:
  "distinct (map fst (cache s)) \<Longrightarrow> distinct (map fst (cache (fst (snd (ask_sources w ip s)))))"
  by (simp add: ask_sources_state distinct_update)

lemma distinct_body:
  "distinct (map fst (cache s)) \<Longrightarrow>
     distinct (map fst (cache (fst (snd (is_blacklisted_body w ip s)))))"
  using distinct_ask_sources [of s w ip]
  by (auto simp: is_blacklisted_body_def split: option.splits)

lemma distinct_is_blacklisted:
  "distinct (map fst (cache s)) \<Longrightarrow>
     distinct (map fst (cache (fst (snd (is_blacklisted w ip s)))))"
  using distinct_body [of s w ip]
  by (auto simp: is_blacklisted_def split: option.splits prod.splits)

lemma distinct_run:
  "distinct (map fst (cache s)) \<Longrightarrow> distinct (map fst (cache (run cs s)))"
proof (induction cs arbitrary: s)
  case Nil
  then show ?case by simp
next
  case (Cons c cs)
  show ?case
  proof (cases c)
    case (IsBlacklisted w ip)
    with Cons distinct_is_blacklisted [of s w ip] show ?thesis by simp
  next
    case ClearCache
    with Cons show ?thesis by (simp add: clear_cache_def)
  qed
qed

section \<open>The body without its decorator\<close>

text \<open>
  Left to itself, the body of \<^verbatim>\<open>is_blacklisted\<close> does not trust an entry of
  \<^verbatim>\<open>self.cache\<close> that is 24 hours old or older: it asks the sources again.
\<close>

lemma is_blacklisted_body_stale:
  "map_of (cache s) ip = Some (v, t) \<Longrightarrow> \<not> now_check w - t < cache_duration \<Longrightarrow>
     is_blacklisted_body w ip s = ask_sources w ip s"
  by (simp add: is_blacklisted_body_def)

section \<open>The verdict depends on the sources through the loop only\<close>

lemma sources_is_blacklisted: "sources (fst (snd (is_blacklisted w ip s))) = sources s"
  by (auto simp: is_blacklisted_def is_blacklisted_body_def ask_sources_def
      split: option.splits prod.splits)

lemma sources_run: "sources (run cs s) = sources s"
proof (induction cs arbitrary: s)
  case Nil
  then show ?case by simp
next
  case (Cons c cs)
  then show ?case
    by (cases c) (simp_all add: sources_is_blacklisted clear_cache_def)
qed

lemma is_blacklisted_result:
  "fst (is_blacklisted w ip s) =
     (case map_of (memo s) ip of Some v \<Rightarrow> v | None \<Rightarrow> fst (is_blacklisted_body w ip s))"
  by (simp add: is_blacklisted_def split: option.splits prod.splits)

lemma is_blacklisted_sources_cong:
  assumes "fst (check_sources w ip (sources s)) = fst (check_sources w ip srcs)"
  shows "fst (is_blacklisted w ip s) = fst (is_blacklisted w ip (s\<lparr>sources := srcs\<rparr>))"
proof -
  have "fst (ask_sources w ip s) = fst (ask_sources w ip (s\<lparr>sources := srcs\<rparr>))"
    using assms by (simp add: ask_sources_result)
  then have "fst (is_blacklisted_body w ip s) = fst (is_blacklisted_body w ip (s\<lparr>sources := srcs\<rparr>))"
    by (simp add: is_blacklisted_body_def split: option.splits)
  then show ?thesis
    by (simp add: is_blacklisted_result split: option.splits)
qed

lemma check_sources_drop_raising:
  "fst (check_sources w ip srcs) =
     fst (check_sources w ip (filter (\<lambda>(n, f). \<not> raises f w ip) srcs))"
proof (induction srcs)
  case Nil
  then show ?case by simp
next
  case (Cons p srcs)
  obtain n f where p: "p = (n, f)" by (cases p)
  show ?case
  proof (cases "fst (f w ip)")
    case (Inl e)
    then have "\<forall>c. fst (f w ip) \<noteq> Inr (True, c)" by simp
    then have "fst (check_sources w ip ((n, f) # srcs)) = fst (check_sources w ip srcs)"
      using check_sources_skip [of f w ip n srcs] by simp
    with Inl Cons.IH p show ?thesis by (simp add: raises_def del: check_sources.simps)
  next
    case (Inr r)
    obtain b c where r: "r = (b, c)" by (cases r)
    show ?thesis
    proof (cases b)
      case True
      with Inr r have hit: "fst (f w ip) = Inr (True, c)" by simp
      have "\<not> raises f w ip" using Inr by (simp add: raises_def)
      then show ?thesis
        using check_sources_hit [of f w ip c n srcs] hit
          check_sources_hit [of f w ip c n "filter (\<lambda>(n, f). \<not> raises f w ip) srcs"] p
        by (simp del: check_sources.simps)
    next
      case False
      with Inr r have quiet: "\<forall>c. fst (f w ip) \<noteq> Inr (True, c)" by simp
      have "\<not> raises f w ip" using Inr by (simp add: raises_def)
      then show ?thesis
        using check_sources_skip [of f w ip n srcs] quiet Cons.IH p
          check_sources_skip [of f w ip n "filter (\<lambda>(n, f). \<not> raises f w ip) srcs"]
        by (simp del: check_sources.simps)
    qed
  qed
qed

section \<open>Sources that raise or stay quiet\<close>

lemma raises_quiet: "raises f w ip \<Longrightarrow> \<forall>c. fst (f w ip) \<noteq> Inr (True, c)"
  by (auto simp: raises_def split: sum.splits)

lemma network_down_quiet:
  assumes "\<forall>req. \<exists>e. requests_get w req = Inl e"
  shows "\<forall>c. fst (check_abuseipdb w ip) \<noteq> Inr (True, c)"
    and "\<forall>c. fst (check_stopforumspam w ip) \<noteq> Inr (True, c)"
    and "\<forall>c. fst (check_blocklist_de w ip) \<noteq> Inr (True, c)"
proof -
  show "\<forall>c. fst (check_stopforumspam w ip) \<noteq> Inr (True, c)"
    using assms [rule_format, of "stopforumspam_request ip"]
    by (auto simp: check_stopforumspam_def Let_def)
  show "\<forall>c. fst (check_blocklist_de w ip) \<noteq> Inr (True, c)"
    using assms [rule_format, of "blocklist_de_request ip"]
    by (auto simp: check_blocklist_de_def Let_def)
  show "\<forall>c. fst (check_abuseipdb w ip) \<noteq> Inr (True, c)"
  proof (cases "environ w ''ABUSEIPDB_API_KEY''")
    case None
    then show ?thesis by (simp add: check_abuseipdb_def)
  next
    case (Some api_key)
    then show ?thesis
      using assms [rule_format, of "abuseipdb_request api_key ip"]
      by (auto simp: check_abuseipdb_def Let_def)
  qed
qed

lemma not_200_quiet:
  assumes "\<forall>req. \<exists>r. requests_get w req = Inr r \<and> status_code r \<noteq> 200"
  shows "\<forall>c. fst (check_abuseipdb w ip) \<noteq> Inr (True, c)"
    and "\<forall>c. fst (check_stopforumspam w ip) \<noteq> Inr (True, c)"
    and "\<forall>c. fst (check_blocklist_de w ip) \<noteq> Inr (True, c)"
proof -
  show "\<forall>c. fst (check_stopforumspam w ip) \<noteq> Inr (True, c)"
    using assms [rule_format, of "stopforumspam_request ip"]
    by (auto simp: check_stopforumspam_def Let_def)
  show "\<forall>c. fst (check_blocklist_de w ip) \<noteq> Inr (True, c)"
    using assms [rule_format, of "blocklist_de_request ip"]
    by (auto simp: check_blocklist_de_def Let_def)
  show "\<forall>c. fst (check_abuseipdb w ip) \<noteq> Inr (True, c)"
  proof (cases "environ w ''ABUSEIPDB_API_KEY''")
    case None
    then show ?thesis by (simp add: check_abuseipdb_def)
  next
    case (Some api_key)
    then show ?thesis
      using assms [rule_format, of "abuseipdb_request api_key ip"]
      by (auto simp: check_abuseipdb_def Let_def)
  qed
qed

section \<open>The claims\<close>

text \<open>
  C1. The claim: a call of \<^verbatim>\<open>is_blacklisted\<close> made more than 24 hours after the
  verdict for the address was stored consults the adapters again. The code does not: the
  first call, at clock 0 with every provider clean, stores \<open>(False, None, 0)\<close> both in
  \<^verbatim>\<open>self.cache\<close> and in the store of \<^verbatim>\<open>lru_cache\<close>; the second call, 25 hours later
  and with StopForumSpam now listing the address, is answered by the decorator with the
  old verdict and consults no adapter, although the entry of \<^verbatim>\<open>self.cache\<close> is stale
  and the body, had it run, would have returned \<open>(True, stopforumspam, 50)\<close>.
\<close>

theorem stale_verdict_served_from_memo:
  "case is_blacklisted (world_clean 0) ''203.0.113.5'' init_checker of
     (v1, s1, tr1) \<Rightarrow>
       (case is_blacklisted (world_listed 5 (day + 3600000000)) ''203.0.113.5'' s1 of
          (v2, s2, tr2) \<Rightarrow>
            v1 = (False, None, 0) \<and>
            map fst tr1 = [''abuseipdb'', ''stopforumspam'', ''blocklist_de''] \<and>
            map_of (cache s1) ''203.0.113.5'' = Some ((False, None, 0), 0) \<and>
            \<not> now_check (world_listed 5 (day + 3600000000)) - 0 < cache_duration \<and>
            v2 = (False, None, 0) \<and> tr2 = [] \<and>
            fst (is_blacklisted_body (world_listed 5 (day + 3600000000)) ''203.0.113.5'' s1)
              = (True, Some ''stopforumspam'', 50))"
  by (simp add: eval_defs)

text \<open>
  C2, as claimed, fails: after one lookup the cache holds one entry, and
  \<^verbatim>\<open>clear_cache\<close> does not return the integer 1 (it returns \<^verbatim>\<open>None\<close>).
\<close>

theorem clear_cache_returns_none:
  "length (cache (run [IsBlacklisted (world_clean 0) ''203.0.113.5''] init_checker)) = 1 \<and>
   fst (clear_cache (run [IsBlacklisted (world_clean 0) ''203.0.113.5''] init_checker)) \<noteq> PyInt 1"
  by (simp add: eval_defs)

text \<open>
  C2, amended. In every state the checker can reach, \<^verbatim>\<open>clear_cache\<close> empties both
  \<^verbatim>\<open>self.cache\<close> and the store of \<^verbatim>\<open>lru_cache\<close>, returns \<^verbatim>\<open>None\<close>, and the number
  it writes into its log message is the exact number of addresses that \<^verbatim>\<open>self.cache\<close>
  held.
\<close>

theorem clear_cache_empties_and_logs_count:
  "case clear_cache (run cs init_checker) of
     (r, s', n) \<Rightarrow>
       r = PyNone \<and> cache s' = [] \<and> memo s' = [] \<and>
       n = card (dom (map_of (cache (run cs init_checker))))"
proof -
  have "distinct (map fst (cache (run cs init_checker)))"
    by (rule distinct_run) (simp add: init_checker_def)
  then have "length (cache (run cs init_checker)) = card (dom (map_of (cache (run cs init_checker))))"
    using distinct_card [of "map fst (cache (run cs init_checker))"]
    by (simp add: dom_map_of_conv_image_fst)
  then show ?thesis by (simp add: clear_cache_def)
qed

theorem clear_cache_empties_and_logs_count_witness:
  "clear_cache (run [IsBlacklisted (world_clean 0) ''203.0.113.5'',
                     IsBlacklisted (world_clean 7) ''198.51.100.9'',
                     IsBlacklisted (world_clean day) ''203.0.113.5''] init_checker)
     = (PyNone, init_checker, 2)"
  using clear_cache_empties_and_logs_count [of
     "[IsBlacklisted (world_clean 0) ''203.0.113.5'',
       IsBlacklisted (world_clean 7) ''198.51.100.9'',
       IsBlacklisted (world_clean day) ''203.0.113.5'']"]
  by (simp add: eval_defs)

text \<open>
  C3, as claimed, fails: with the network down, the StopForumSpam check function raises
  the exception of \<^verbatim>\<open>requests.get\<close>; it has no handler of its own.
\<close>

theorem stopforumspam_raises_when_network_down:
  "fst (check_stopforumspam (world_down 0) ''203.0.113.5'') = Inl ConnectionError"
  by (simp add: eval_defs)

text \<open>
  C3, amended. A check function returns an AdapterResult or raises. When
  \<^verbatim>\<open>requests.get\<close> raises (transport failure, timeout), each of the three check
  functions raises the same exception; when \<^verbatim>\<open>response.json()\<close> raises on a 200
  response (unparseable body), the two check functions that parse JSON raise it too.
  The exception is caught one level up, by the \<^verbatim>\<open>try\<close> in the loop of
  \<^verbatim>\<open>is_blacklisted\<close>: the loop goes on with the remaining sources, as after a
  non-blocking result.
\<close>

theorem adapter_exceptions_caught_by_loop:
  "(requests_get w (stopforumspam_request ip) = Inl e \<longrightarrow>
      fst (check_stopforumspam w ip) = Inl e) \<and>
   (requests_get w (blocklist_de_request ip) = Inl e \<longrightarrow>
      fst (check_blocklist_de w ip) = Inl e) \<and>
   (environ w ''ABUSEIPDB_API_KEY'' = Some api_key \<and> api_key \<noteq> [] \<and>
    requests_get w (abuseipdb_request api_key ip) = Inl e \<longrightarrow>
      fst (check_abuseipdb w ip) = Inl e) \<and>
   (requests_get w (stopforumspam_request ip) = Inr r \<and> status_code r = 200 \<and>
    resp_json r = Inl e \<longrightarrow>
      fst (check_stopforumspam w ip) = Inl e) \<and>
   (environ w ''ABUSEIPDB_API_KEY'' = Some api_key \<and> api_key \<noteq> [] \<and>
    requests_get w (abuseipdb_request api_key ip) = Inr r \<and> status_code r = 200 \<and>
    resp_json r = Inl e \<longrightarrow>
      fst (check_abuseipdb w ip) = Inl e) \<and>
   (fst (check_func w ip) = Inl e \<longrightarrow>
      check_sources w ip ((source_name, check_func) # rest) =
        (fst (check_sources w ip rest),
         (source_name, snd (check_func w ip)) # snd (check_sources w ip rest)))"
proof -
  have "fst (check_func w ip) = Inl e \<longrightarrow>
      check_sources w ip ((source_name, check_func) # rest) =
        (fst (check_sources w ip rest),
         (source_name, snd (check_func w ip)) # snd (check_sources w ip rest))"
    using check_sources_skip [of check_func w ip source_name rest] by simp
  then show ?thesis
    by (simp add: check_stopforumspam_def check_blocklist_de_def check_abuseipdb_def Let_def)
qed

theorem adapter_exceptions_caught_by_loop_witness:
  "fst (check_stopforumspam (world_down 0) ''203.0.113.5'') = Inl ConnectionError \<and>
   fst (check_blocklist_de (world_down 0) ''203.0.113.5'') = Inl ConnectionError \<and>
   fst (check_abuseipdb (world_down 0) ''203.0.113.5'') = Inl ConnectionError \<and>
   fst (check_stopforumspam (world_garbled 0) ''203.0.113.5'') = Inl JSONDecodeError \<and>
   fst (check_abuseipdb (world_garbled 0) ''203.0.113.5'') = Inl JSONDecodeError \<and>
   check_sources (world_down 0) ''203.0.113.5'' (sources init_checker) =
     (None, [(''abuseipdb'', [abuseipdb_request ''secret'' ''203.0.113.5'']),
             (''stopforumspam'', [stopforumspam_request ''203.0.113.5'']),
             (''blocklist_de'', [blocklist_de_request ''203.0.113.5''])])"
  using adapter_exceptions_caught_by_loop [of "world_down 0" "''203.0.113.5''" ConnectionError
      "''secret''" "resp_ok JNull []" check_abuseipdb "''abuseipdb''" "tl (sources init_checker)"]
    adapter_exceptions_caught_by_loop [of "world_garbled 0" "''203.0.113.5''" JSONDecodeError
      "''secret''" "\<lparr>status_code = 200, resp_json = Inl JSONDecodeError, resp_text = ''<html>''\<rparr>"
      check_abuseipdb "''abuseipdb''" "[]"]
  by (simp add: eval_defs)

text \<open>
  C4. The sources are consulted in the order of registration, which in every reachable
  state is abuseipdb, stopforumspam, blocklist_de. When no stored verdict answers the
  call, the verdict is built from the name and the confidence of the first source that
  reports a block, and the sources consulted are exactly those up to and including it:
  the ones registered after it are not called. In particular, with \<open>A\<close> not blocking,
  \<open>B\<close> blocking with confidence 60 and \<open>C\<close> blocking with confidence 90, registered in
  this order, the verdict is \<open>(True, B, 60)\<close> and the sources consulted are \<open>A\<close> and
  \<open>B\<close>.
\<close>

theorem first_blocking_source_wins:
  "map fst (sources (run cs init_checker)) = [''abuseipdb'', ''stopforumspam'', ''blocklist_de''] \<and>
   (no_stored_verdict w ip s \<and> sources s = pre @ (source_name, check_func) # post \<and>
    (\<forall>(m, g) \<in> set pre. \<forall>c. fst (g w ip) \<noteq> Inr (True, c)) \<and>
    fst (check_func w ip) = Inr (True, confidence) \<longrightarrow>
      fst (is_blacklisted w ip s) = (True, Some source_name, confidence) \<and>
      snd (snd (is_blacklisted w ip s)) =
        map (\<lambda>(m, g). (m, snd (g w ip))) (pre @ [(source_name, check_func)])) \<and>
   (no_stored_verdict w ip s \<and> sources s = [(''A'', A), (''B'', B), (''C'', C)] \<and>
    fst (A w ip) = Inr (False, a) \<and> fst (B w ip) = Inr (True, 60) \<and>
    fst (C w ip) = Inr (True, 90) \<longrightarrow>
      fst (is_blacklisted w ip s) = (True, Some ''B'', 60) \<and>
      map fst (snd (snd (is_blacklisted w ip s))) = [''A'', ''B''])"
proof (intro conjI impI)
  show "map fst (sources (run cs init_checker)) = [''abuseipdb'', ''stopforumspam'', ''blocklist_de'']"
    by (simp add: sources_run init_checker_def)
next
  assume h: "no_stored_verdict w ip s \<and> sources s = pre @ (source_name, check_func) # post \<and>
    (\<forall>(m, g) \<in> set pre. \<forall>c. fst (g w ip) \<noteq> Inr (True, c)) \<and>
    fst (check_func w ip) = Inr (True, confidence)"
  then have cs: "check_sources w ip (sources s) =
      (Some (True, Some source_name, confidence),
       map (\<lambda>(m, g). (m, snd (g w ip))) (pre @ [(source_name, check_func)]))"
    using check_sources_first_match [of pre w ip check_func confidence source_name post] by simp
  from h have fresh: "no_stored_verdict w ip s" by simp
  show "fst (is_blacklisted w ip s) = (True, Some source_name, confidence)"
    using is_blacklisted_fresh(1) [OF fresh] cs by simp
  show "snd (snd (is_blacklisted w ip s)) =
        map (\<lambda>(m, g). (m, snd (g w ip))) (pre @ [(source_name, check_func)])"
    using is_blacklisted_fresh(2) [OF fresh] cs by simp
next
  assume h: "no_stored_verdict w ip s \<and> sources s = [(''A'', A), (''B'', B), (''C'', C)] \<and>
    fst (A w ip) = Inr (False, a) \<and> fst (B w ip) = Inr (True, 60) \<and>
    fst (C w ip) = Inr (True, 90)"
  then have cs: "check_sources w ip (sources s) =
      (Some (True, Some ''B'', 60), map (\<lambda>(m, g). (m, snd (g w ip))) ([(''A'', A)] @ [(''B'', B)]))"
    using check_sources_first_match [of "[(''A'', A)]" w ip B 60 "''B''" "[(''C'', C)]"] by simp
  from h have fresh: "no_stored_verdict w ip s" by simp
  show "fst (is_blacklisted w ip s) = (True, Some ''B'', 60)"
    using is_blacklisted_fresh(1) [OF fresh] cs by simp
  show "map fst (snd (snd (is_blacklisted w ip s))) = [''A'', ''B'']"
    using is_blacklisted_fresh(2) [OF fresh] cs by simp
qed

theorem first_blocking_source_wins_witness:
  "no_stored_verdict (world_clean 0) ''203.0.113.5'' abc_checker \<and>
   is_blacklisted (world_clean 0) ''203.0.113.5'' abc_checker =
     ((True, Some ''B'', 60),
      abc_checker\<lparr>cache := [(''203.0.113.5'', ((True, Some ''B'', 60), 0))],
                   memo := [(''203.0.113.5'', (True, Some ''B'', 60))]\<rparr>,
      [(''A'', []), (''B'', [])])"
  using first_blocking_source_wins [of "[]" "world_clean 0" "''203.0.113.5''" abc_checker
      "[(''A'', const_adapter (Inr (False, 0)))]" "''B''" "const_adapter (Inr (True, 60))"
      "[(''C'', const_adapter (Inr (True, 90)))]" 60
      "const_adapter (Inr (False, 0))" "const_adapter (Inr (True, 60))"
      "const_adapter (Inr (True, 90))" 0]
  by (simp add: eval_defs abc_checker_def const_adapter_def no_stored_verdict_def)

text \<open>
  C5. Every verdict returned by \<^verbatim>\<open>is_blacklisted\<close>, in whatever state a history of
  calls of \<^verbatim>\<open>is_blacklisted\<close> and \<^verbatim>\<open>clear_cache\<close> has left the checker, has a source
  exactly when it is blocking, and has confidence 0 when it is not blocking.
\<close>

theorem verdict_well_formed:
  "case fst (is_blacklisted w ip (run cs init_checker)) of
     (blocked, source, confidence) \<Rightarrow>
       (source \<noteq> None) = blocked \<and> (\<not> blocked \<longrightarrow> confidence = 0)"
  using stored_ok_is_blacklisted(2) [OF stored_ok_run [OF stored_ok_init], of w ip cs]
  by (simp add: well_formed_def)

theorem verdict_well_formed_witness:
  "fst (is_blacklisted (world_listed 0 day) ''203.0.113.5''
         (run [IsBlacklisted (world_clean 0) ''203.0.113.5'', ClearCache] init_checker))
     = (True, Some ''stopforumspam'', 0) \<and>
   (case fst (is_blacklisted (world_listed 0 day) ''203.0.113.5''
         (run [IsBlacklisted (world_clean 0) ''203.0.113.5'', ClearCache] init_checker)) of
     (blocked, source, confidence) \<Rightarrow>
       (source \<noteq> None) = blocked \<and> (\<not> blocked \<longrightarrow> confidence = 0))"
  using verdict_well_formed [of "world_listed 0 day" "''203.0.113.5''"
      "[IsBlacklisted (world_clean 0) ''203.0.113.5'', ClearCache]"]
  by (simp add: eval_defs)

text \<open>
  C6. A source that raises has no effect on the verdict of \<^verbatim>\<open>is_blacklisted\<close>: the
  verdict is the one the checker would give without that source. When no stored verdict
  answers the call and every source raises, every source is consulted and the verdict is
  \<open>(False, None, 0)\<close>; so it is for the three real sources when every request raises,
  and when every request is answered with a status other than 200.
\<close>

theorem adapter_failures_never_surface:
  "fst (is_blacklisted w ip s) =
     fst (is_blacklisted w ip
            (s\<lparr>sources := filter (\<lambda>(n, f). \<not> raises f w ip) (sources s)\<rparr>)) \<and>
   (no_stored_verdict w ip s \<and> (\<forall>(n, f) \<in> set (sources s). raises f w ip) \<longrightarrow>
      fst (is_blacklisted w ip s) = (False, None, 0) \<and>
      map fst (snd (snd (is_blacklisted w ip s))) = map fst (sources s)) \<and>
   (no_stored_verdict w ip s \<and> sources s = sources init_checker \<and>
    (\<forall>req. \<exists>e. requests_get w req = Inl e) \<longrightarrow>
      fst (is_blacklisted w ip s) = (False, None, 0)) \<and>
   (no_stored_verdict w ip s \<and> sources s = sources init_checker \<and>
    (\<forall>req. \<exists>r. requests_get w req = Inr r \<and> status_code r \<noteq> 200) \<longrightarrow>
      fst (is_blacklisted w ip s) = (False, None, 0))"
proof (intro conjI impI)
  show "fst (is_blacklisted w ip s) =
     fst (is_blacklisted w ip
            (s\<lparr>sources := filter (\<lambda>(n, f). \<not> raises f w ip) (sources s)\<rparr>))"
    by (rule is_blacklisted_sources_cong) (rule check_sources_drop_raising)
next
  assume h: "no_stored_verdict w ip s \<and> (\<forall>(n, f) \<in> set (sources s). raises f w ip)"
  then have "\<forall>(m, g) \<in> set (sources s). \<forall>c. fst (g w ip) \<noteq> Inr (True, c)"
    using raises_quiet by fastforce
  then have cs: "check_sources w ip (sources s) =
      (None, map (\<lambda>(m, g). (m, snd (g w ip))) (sources s))"
    by (rule check_sources_all_quiet)
  from h have fresh: "no_stored_verdict w ip s" by simp
  show "fst (is_blacklisted w ip s) = (False, None, 0)"
    using is_blacklisted_fresh(1) [OF fresh] cs by simp
  have "map fst (map (\<lambda>(m, g). (m, snd (g w ip))) (sources s)) = map fst (sources s)"
    by (induction "sources s") auto
  then show "map fst (snd (snd (is_blacklisted w ip s))) = map fst (sources s)"
    using is_blacklisted_fresh(2) [OF fresh] cs by simp
next
  assume h: "no_stored_verdict w ip s \<and> sources s = sources init_checker \<and>
    (\<forall>req. \<exists>e. requests_get w req = Inl e)"
  then have down: "\<forall>req. \<exists>e. requests_get w req = Inl e" by simp
  have "\<forall>(m, g) \<in> set (sources s). \<forall>c. fst (g w ip) \<noteq> Inr (True, c)"
    using h network_down_quiet [OF down, of ip] by (simp add: init_checker_def)
  then have cs: "check_sources w ip (sources s) =
      (None, map (\<lambda>(m, g). (m, snd (g w ip))) (sources s))"
    by (rule check_sources_all_quiet)
  from h have fresh: "no_stored_verdict w ip s" by simp
  show "fst (is_blacklisted w ip s) = (False, None, 0)"
    using is_blacklisted_fresh(1) [OF fresh] cs by simp
next
  assume h: "no_stored_verdict w ip s \<and> sources s = sources init_checker \<and>
    (\<forall>req. \<exists>r. requests_get w req = Inr r \<and> status_code r \<noteq> 200)"
  then have err: "\<forall>req. \<exists>r. requests_get w req = Inr r \<and> status_code r \<noteq> 200" by simp
  have "\<forall>(m, g) \<in> set (sources s). \<forall>c. fst (g w ip) \<noteq> Inr (True, c)"
    using h not_200_quiet [OF err, of ip] by (simp add: init_checker_def)
  then have cs: "check_sources w ip (sources s) =
      (None, map (\<lambda>(m, g). (m, snd (g w ip))) (sources s))"
    by (rule check_sources_all_quiet)
  from h have fresh: "no_stored_verdict w ip s" by simp
  show "fst (is_blacklisted w ip s) = (False, None, 0)"
    using is_blacklisted_fresh(1) [OF fresh] cs by simp
qed

theorem adapter_failures_never_surface_witness:
  "no_stored_verdict (world_down 0) ''203.0.113.5'' init_checker \<and>
   raises check_abuseipdb (world_down 0) ''203.0.113.5'' \<and>
   raises check_stopforumspam (world_down 0) ''203.0.113.5'' \<and>
   raises check_blocklist_de (world_down 0) ''203.0.113.5'' \<and>
   fst (is_blacklisted (world_down 0) ''203.0.113.5'' init_checker) = (False, None, 0) \<and>
   map fst (snd (snd (is_blacklisted (world_down 0) ''203.0.113.5'' init_checker))) =
     [''abuseipdb'', ''stopforumspam'', ''blocklist_de''] \<and>
   status_code (projr (requests_get (world_error 0) (stopforumspam_request ''203.0.113.5''))) = 503 \<and>
   fst (is_blacklisted (world_error 0) ''203.0.113.5'' init_checker) = (False, None, 0)"
  using adapter_failures_never_surface [of "world_down 0" "''203.0.113.5''" init_checker]
    adapter_failures_never_surface [of "world_error 0" "''203.0.113.5''" init_checker]
  by (simp add: eval_defs world_error_def no_stored_verdict_def raises_def)

text \<open>
  C7. When \<^verbatim>\<open>ABUSEIPDB_API_KEY\<close> is not set (or is set to the empty string), the
  AbuseIPDB check function returns \<open>(False, 0)\<close> and sends no request, and the verdict of
  \<^verbatim>\<open>is_blacklisted\<close> is the one of a checker that has the remaining sources only.
\<close>

theorem missing_api_key_disables_abuseipdb:
  assumes "environ w ''ABUSEIPDB_API_KEY'' = None \<or> environ w ''ABUSEIPDB_API_KEY'' = Some []"
  shows "check_abuseipdb w ip = (Inr (False, 0), []) \<and>
         (sources s = (''abuseipdb'', check_abuseipdb) # rest \<longrightarrow>
            fst (is_blacklisted w ip s) = fst (is_blacklisted w ip (s\<lparr>sources := rest\<rparr>)))"
proof (intro conjI impI)
  show off: "check_abuseipdb w ip = (Inr (False, 0), [])"
    using assms by (auto simp: check_abuseipdb_def)
  assume "sources s = (''abuseipdb'', check_abuseipdb) # rest"
  then have "fst (check_sources w ip (sources s)) = fst (check_sources w ip rest)"
    using check_sources_skip [of check_abuseipdb w ip "''abuseipdb''" rest] off by simp
  then show "fst (is_blacklisted w ip s) = fst (is_blacklisted w ip (s\<lparr>sources := rest\<rparr>))"
    by (rule is_blacklisted_sources_cong)
qed

theorem missing_api_key_disables_abuseipdb_witness:
  "environ (world_listed 5 0) ''ABUSEIPDB_API_KEY'' = None \<and>
   check_abuseipdb (world_listed 5 0) ''203.0.113.5'' = (Inr (False, 0), []) \<and>
   fst (is_blacklisted (world_listed 5 0) ''203.0.113.5'' init_checker) =
     (True, Some ''stopforumspam'', 50) \<and>
   fst (is_blacklisted (world_listed 5 0) ''203.0.113.5''
          (init_checker\<lparr>sources := tl (sources init_checker)\<rparr>)) =
     (True, Some ''stopforumspam'', 50)"
  using missing_api_key_disables_abuseipdb [of "world_listed 5 0" "''203.0.113.5''" init_checker
      "tl (sources init_checker)"]
  by (simp add: eval_defs)

text \<open>
  C8. On a 200 response: AbuseIPDB with score \<open>n\<close> gives \<open>(n > 75, n)\<close>;
  StopForumSpam, for an address that appears, with frequency \<open>f\<close> gives
  \<open>(True, min(100, f * 10))\<close>; blocklist.de, when the text (in lower case) contains
  \<^verbatim>\<open>attacks:\<close> and does not contain \<^verbatim>\<open>attacks: 0\<close>, gives \<open>(True, 80)\<close>.
\<close>

theorem adapter_thresholds:
  "(environ w ''ABUSEIPDB_API_KEY'' = Some api_key \<and> api_key \<noteq> [] \<and>
    requests_get w (abuseipdb_request api_key ip) = Inr r \<and> status_code r = 200 \<and>
    resp_json r = Inr (JObj obj) \<and> map_of obj ''data'' = Some (JObj d) \<and>
    map_of d ''abuseConfidenceScore'' = Some (JInt score) \<longrightarrow>
      fst (check_abuseipdb w ip) = Inr (score > 75, score)) \<and>
   (requests_get w (stopforumspam_request ip) = Inr r \<and> status_code r = 200 \<and>
    resp_json r = Inr (JObj obj) \<and> map_of obj ''ip'' = Some (JObj d) \<and>
    map_of d ''appears'' = Some (JInt appears) \<and> appears > 0 \<and>
    map_of d ''frequency'' = Some (JInt frequency) \<longrightarrow>
      fst (check_stopforumspam w ip) = Inr (True, min 100 (frequency * 10))) \<and>
   (requests_get w (blocklist_de_request ip) = Inr r \<and> status_code r = 200 \<and>
    sublist ''attacks:'' (lower (resp_text r)) \<and>
    \<not> sublist ''attacks: 0'' (lower (resp_text r)) \<longrightarrow>
      fst (check_blocklist_de w ip) = Inr (True, 80))"
  by (simp add: check_abuseipdb_def check_stopforumspam_def check_blocklist_de_def Let_def)

theorem adapter_thresholds_witness:
  "fst (check_abuseipdb (world_score 85 0) ''198.51.100.9'') = Inr (True, 85) \<and>
   fst (check_abuseipdb (world_score 75 0) ''198.51.100.9'') = Inr (False, 75) \<and>
   fst (check_stopforumspam (world_listed 5 0) ''198.51.100.9'') = Inr (True, 50) \<and>
   fst (check_stopforumspam (world_listed 12 0) ''198.51.100.9'') = Inr (True, 100) \<and>
   fst (check_blocklist_de (world_listed 5 0) ''198.51.100.9'') = Inr (True, 80)"
  using adapter_thresholds [of "world_score 85 0" "''secret''" "''198.51.100.9''"
      "resp_ok (JObj [(''data'', JObj [(''abuseConfidenceScore'', JInt 85)])]) []"
      "[(''data'', JObj [(''abuseConfidenceScore'', JInt 85)])]"
      "[(''abuseConfidenceScore'', JInt 85)]" 85 1 5]
    adapter_thresholds [of "world_score 75 0" "''secret''" "''198.51.100.9''"
      "resp_ok (JObj [(''data'', JObj [(''abuseConfidenceScore'', JInt 75)])]) []"
      "[(''data'', JObj [(''abuseConfidenceScore'', JInt 75)])]"
      "[(''abuseConfidenceScore'', JInt 75)]" 75 1 5]
    adapter_thresholds [of "world_listed 5 0" "''secret''" "''198.51.100.9''"
      "resp_ok (JObj [(''ip'', JObj [(''appears'', JInt 1), (''frequency'', JInt 5)])]) ''attacks: 4''"
      "[(''ip'', JObj [(''appears'', JInt 1), (''frequency'', JInt 5)])]"
      "[(''appears'', JInt 1), (''frequency'', JInt 5)]" 0 1 5]
    adapter_thresholds [of "world_listed 12 0" "''secret''" "''198.51.100.9''"
      "resp_ok (JObj [(''ip'', JObj [(''appears'', JInt 1), (''frequency'', JInt 12)])]) ''attacks: 4''"
      "[(''ip'', JObj [(''appears'', JInt 1), (''frequency'', JInt 12)])]"
      "[(''appears'', JInt 1), (''frequency'', JInt 12)]" 0 1 12]
  by (simp add: eval_defs)

text \<open>
  C9. Of two consecutive calls of \<^verbatim>\<open>is_blacklisted\<close> for the same address the second
  returns the verdict of the first and consults no adapter, so sends nothing. This holds
  for every pair of clock readings, in particular for two calls within 24 hours of each
  other: the first call leaves the address in the store of \<^verbatim>\<open>lru_cache\<close>, where the
  second finds it.
\<close>

theorem second_call_memoized:
  "case is_blacklisted w1 ip s of (v1, s1, tr1) \<Rightarrow>
     (case is_blacklisted w2 ip s1 of (v2, s2, tr2) \<Rightarrow> v2 = v1 \<and> tr2 = [])"
proof -
  obtain v1 s1 tr1 where c1: "is_blacklisted w1 ip s = (v1, s1, tr1)"
    by (cases "is_blacklisted w1 ip s")
  from memo_after_call [of w1 ip s] c1 have "map_of (memo s1) ip = Some v1" by simp
  then have "is_blacklisted w2 ip s1 = (v1, s1\<lparr>memo := lru_touch ip v1 (memo s1)\<rparr>, [])"
    by (rule is_blacklisted_memo_hit)
  with c1 show ?thesis by simp
qed

text \<open>
  C10. When StopForumSpam answers 200 and reports that the address appears, with a
  frequency that is 0 or missing, its check function returns \<open>(True, 0)\<close>; and when no
  stored verdict answers the call and AbuseIPDB has not blocked, \<^verbatim>\<open>is_blacklisted\<close>
  returns \<open>(True, stopforumspam, 0)\<close>: a blocking verdict with confidence 0. Both
  responses (frequency 0, frequency missing) are evaluated after the theorem.
\<close>

theorem blocked_with_confidence_zero:
  assumes "requests_get w (stopforumspam_request ip) = Inr r"
    and "status_code r = 200"
    and "resp_json r = Inr (JObj obj)"
    and "map_of obj ''ip'' = Some (JObj d)"
    and "map_of d ''appears'' = Some (JInt appears)"
    and "appears > 0"
    and "map_of d ''frequency'' = None \<or> map_of d ''frequency'' = Some (JInt 0)"
  shows "fst (check_stopforumspam w ip) = Inr (True, 0) \<and>
         (no_stored_verdict w ip s \<and> sources s = sources init_checker \<and>
          (\<forall>c. fst (check_abuseipdb w ip) \<noteq> Inr (True, c)) \<longrightarrow>
            fst (is_blacklisted w ip s) = (True, Some ''stopforumspam'', 0))"
proof (intro conjI impI)
  show sfs: "fst (check_stopforumspam w ip) = Inr (True, 0)"
    using assms by (auto simp: check_stopforumspam_def Let_def)
  assume h: "no_stored_verdict w ip s \<and> sources s = sources init_checker \<and>
          (\<forall>c. fst (check_abuseipdb w ip) \<noteq> Inr (True, c))"
  then have "check_sources w ip (sources s) =
      (Some (True, Some ''stopforumspam'', 0),
       map (\<lambda>(m, g). (m, snd (g w ip)))
         ([(''abuseipdb'', check_abuseipdb)] @ [(''stopforumspam'', check_stopforumspam)]))"
    using check_sources_first_match [of "[(''abuseipdb'', check_abuseipdb)]" w ip
        check_stopforumspam 0 "''stopforumspam''" "[(''blocklist_de'', check_blocklist_de)]"] sfs
    by (simp add: init_checker_def)
  moreover from h have "no_stored_verdict w ip s" by simp
  ultimately show "fst (is_blacklisted w ip s) = (True, Some ''stopforumspam'', 0)"
    using is_blacklisted_fresh(1) [of w ip s] by simp
qed

theorem blocked_with_confidence_zero_witness:
  "fst (check_stopforumspam (world_listed 0 0) ''203.0.113.5'') = Inr (True, 0) \<and>
   fst (is_blacklisted (world_listed 0 0) ''203.0.113.5'' init_checker) =
     (True, Some ''stopforumspam'', 0) \<and>
   fst (check_stopforumspam (world_no_frequency 0) ''203.0.113.5'') = Inr (True, 0) \<and>
   fst (is_blacklisted (world_no_frequency 0) ''203.0.113.5'' init_checker) =
     (True, Some ''stopforumspam'', 0)"
proof -
  have a: "fst (check_stopforumspam (world_listed 0 0) ''203.0.113.5'') = Inr (True, 0) \<and>
         (no_stored_verdict (world_listed 0 0) ''203.0.113.5'' init_checker \<and>
          sources init_checker = sources init_checker \<and>
          (\<forall>c. fst (check_abuseipdb (world_listed 0 0) ''203.0.113.5'') \<noteq> Inr (True, c)) \<longrightarrow>
            fst (is_blacklisted (world_listed 0 0) ''203.0.113.5'' init_checker) =
              (True, Some ''stopforumspam'', 0))"
    by (rule blocked_with_confidence_zero [where
          r = "resp_ok (JObj [(''ip'', JObj [(''appears'', JInt 1), (''frequency'', JInt 0)])]) ''attacks: 4''"
          and obj = "[(''ip'', JObj [(''appears'', JInt 1), (''frequency'', JInt 0)])]"
          and d = "[(''appears'', JInt 1), (''frequency'', JInt 0)]" and appears = 1])
      (simp_all add: world_listed_def resp_ok_def)
  have b: "fst (check_stopforumspam (world_no_frequency 0) ''203.0.113.5'') = Inr (True, 0) \<and>
         (no_stored_verdict (world_no_frequency 0) ''203.0.113.5'' init_checker \<and>
          sources init_checker = sources init_checker \<and>
          (\<forall>c. fst (check_abuseipdb (world_no_frequency 0) ''203.0.113.5'') \<noteq> Inr (True, c)) \<longrightarrow>
            fst (is_blacklisted (world_no_frequency 0) ''203.0.113.5'' init_checker) =
              (True, Some ''stopforumspam'', 0))"
    by (rule blocked_with_confidence_zero [where
          r = "resp_ok (JObj [(''ip'', JObj [(''appears'', JInt 1)])]) []"
          and obj = "[(''ip'', JObj [(''appears'', JInt 1)])]"
          and d = "[(''appears'', JInt 1)]" and appears = 1])
      (simp_all add: world_no_frequency_def resp_ok_def)
  have fresh: "no_stored_verdict w ''203.0.113.5'' init_checker" for w
    by (simp add: no_stored_verdict_def init_checker_def)
  have off1: "\<forall>c. fst (check_abuseipdb (world_listed 0 0) ''203.0.113.5'') \<noteq> Inr (True, c)"
    by (simp add: check_abuseipdb_def world_listed_def)
  have off2: "\<forall>c. fst (check_abuseipdb (world_no_frequency 0) ''203.0.113.5'') \<noteq> Inr (True, c)"
    by (simp add: check_abuseipdb_def world_no_frequency_def)
  from a b fresh off1 off2 show ?thesis by simp
qed

end
